theory Spec2Isabelle
  imports Main
begin

section \<open>Colour switch: \<open>internal/pkg/term/color/color.go\<close>\<close>

text \<open>
  The two package-level booleans the function writes: \<open>core.DisableColor\<close> of the survey
  library and \<open>color.NoColor\<close> of the colour library.
\<close>

record color_globals =
  DisableColor :: bool
  NoColor :: bool

definition colorEnvVar :: string where
  "colorEnvVar = ''COLOR''"

text \<open>
  \<open>strings.ToLower\<close> on the bytes of the value. Only the ASCII letters \<open>A\<close> to \<open>Z\<close> are
  mapped; every other byte is kept. (The Unicode lower-casing of Go never yields one of the
  letters of \<open>true\<close> or \<open>false\<close> from a non-ASCII rune, so equality with these two words
  is decided by the ASCII part.)
\<close>

definition toLower_char :: "char \<Rightarrow> char" where
  "toLower_char ch =
     (let n = (of_char ch :: nat) in if 65 \<le> n \<and> n \<le> 90 then char_of (n + 32) else ch)"

definition ToLower :: "string \<Rightarrow> string" where
  "ToLower s = map toLower_char s"

text \<open>
  \<open>lookupEnv\<close> is the package variable holding \<open>os.LookupEnv\<close>: \<open>None\<close> is
  \<open>exists = false\<close>.
\<close>

definition DisableColorBasedOnEnvVar ::
  "(string \<Rightarrow> string option) \<Rightarrow> color_globals \<Rightarrow> color_globals" where
  "DisableColorBasedOnEnvVar lookupEnv g =
     (case lookupEnv colorEnvVar of
        None \<Rightarrow> g\<lparr>DisableColor := NoColor g\<rparr>
      | Some v \<Rightarrow>
          if ToLower v = ''false'' then g\<lparr>DisableColor := True, NoColor := True\<rparr>
          else if ToLower v = ''true'' then g\<lparr>DisableColor := False, NoColor := False\<rparr>
          else g)"


section \<open>The status command: errors, calls and options\<close>

text \<open>
  A Go \<open>error\<close> value. \<open>External\<close> is an error made by a collaborator (the store, the
  describer, the prompt); \<open>Errorf\<close> is \<open>fmt.Errorf\<close> with a format that has no \<open>%w\<close>
  and carries the formatted message; \<open>ErrorfW\<close> is \<open>fmt.Errorf\<close> with a format that ends
  in \<open>: %w\<close> and carries the formatted text in front of the wrapped error, and the wrapped
  error itself.
\<close>

datatype 'c error =
    External 'c
  | Errorf string
  | ErrorfW string "'c error"

text \<open>\<open>errors.Unwrap\<close>: the error wrapped by \<open>%w\<close>, if any.\<close>

fun Unwrap :: "'c error \<Rightarrow> 'c error option" where
  "Unwrap (ErrorfW msg err) = Some err"
| "Unwrap (External x) = None"
| "Unwrap (Errorf msg) = None"

text \<open>
  The calls the command makes on its collaborators, in the order it makes them. The list
  is bookkeeping of the model: it is what lets a theorem count catalog calls, probes and
  prompts.
\<close>

datatype event =
    ListApplicationsCall
  | ListServicesCall string
  | ListEnvironmentsCall string
  | InitAppDescriberCall string string string
  | GetServiceArnCall
  | SelectOneCall string string "string list"
  | InfofCall string

text \<open>
  \<open>config.Application\<close>, \<open>config.Service\<close> and \<open>config.Environment\<close>: the command reads
  their \<open>Name\<close> only.
\<close>

record config_entry =
  Name :: string

record svcEnv =
  svcName :: string
  envName :: string

text \<open>
  \<open>appStatusOpts\<close>: \<open>appName\<close> is the field of \<open>GlobalOpts\<close> that \<open>AppName()\<close> reads,
  \<open>appDescriber\<close> is \<open>None\<close> while the interface value is nil, and \<open>calls\<close> is the
  bookkeeping list of calls made so far.
\<close>

record 'd appStatusOpts =
  appName :: string
  svcName :: string
  envName :: string
  appDescriber :: "'d option"
  calls :: "event list"

text \<open>
  What the command is given from outside this file. The store, the prompt and the
  describer are interfaces; a call returns \<open>Inl\<close> of its error or \<open>Inr\<close> of its value.
  \<open>initAppDescriber\<close> is the function field of the options: applied to the project
  (\<open>o.AppName()\<close>), the environment and the service, it fails or yields the describer that
  it stores in \<open>o.appDescriber\<close>. \<open>IsStackNotExistsErr\<close> is the test of package
  \<open>describe\<close>; \<open>svcEnv_String\<close> is the \<open>String\<close> method of \<open>svcEnv\<close>;
  \<open>HighlightUserInput\<close> and \<open>HighlightCode\<close> are the formatting functions of package
  \<open>color\<close>; the two prompt texts are constants of the log command. None of these is
  defined in the file, so each is a parameter. Within one run a collaborator answers the
  same call in the same way: its answer is a function of the arguments of the call.
\<close>

record ('c, 'd) collaborators =
  ListApplications :: "'c error + config_entry list"
  ListServices :: "string \<Rightarrow> 'c error + config_entry list"
  ListEnvironments :: "string \<Rightarrow> 'c error + config_entry list"
  initAppDescriber :: "string \<Rightarrow> string \<Rightarrow> string \<Rightarrow> 'c error + 'd"
  GetServiceArn :: "'d \<Rightarrow> 'c error + string"
  IsStackNotExistsErr :: "'c error \<Rightarrow> bool"
  SelectOne :: "string \<Rightarrow> string \<Rightarrow> string list \<Rightarrow> 'c error + string"
  svcEnv_String :: "svcEnv \<Rightarrow> string"
  HighlightUserInput :: "string \<Rightarrow> string"
  HighlightCode :: "string \<Rightarrow> string"
  svcLogNamePrompt :: string
  svcLogNameHelpPrompt :: string

definition appStatusProjectNamePrompt :: string where
  "appStatusProjectNamePrompt =
     ''Which project's applications status would you like to show?''"

definition appStatusProjectNameHelpPrompt :: string where
  "appStatusProjectNameHelpPrompt = ''A project groups all of your applications together.''"

definition record_call :: "event \<Rightarrow> 'd appStatusOpts \<Rightarrow> 'd appStatusOpts" where
  "record_call ev opts = opts\<lparr>calls := calls opts @ [ev]\<rparr>"

text \<open>
  The production value of the field \<open>initAppDescriber\<close>, set in \<open>newAppStatusOpts\<close>:
  \<open>describe.NewServiceDescriber\<close> with its error wrapped.
\<close>

definition newAppStatusOpts_initAppDescriber ::
  "(string \<Rightarrow> string \<Rightarrow> string \<Rightarrow> 'c error + 'd) \<Rightarrow> string \<Rightarrow> string \<Rightarrow> string \<Rightarrow> 'c error + 'd" where
  "newAppStatusOpts_initAppDescriber NewServiceDescriber project env svc =
     (case NewServiceDescriber project env svc of
        Inl err \<Rightarrow> Inl (ErrorfW (''creating stack describer for project '' @ project @ '': '') err)
      | Inr d \<Rightarrow> Inr d)"

section \<open>Project resolution\<close>

definition retrieveProjects ::
  "('c, 'd) collaborators \<Rightarrow> 'd appStatusOpts \<Rightarrow> ('c error + string list) \<times> 'd appStatusOpts" where
  "retrieveProjects c opts =
     (let opts1 = record_call ListApplicationsCall opts in
      case ListApplications c of
        Inl err \<Rightarrow> (Inl (ErrorfW ''list projects: '' err), opts1)
      | Inr projs \<Rightarrow> (Inr (map Name projs), opts1))"

definition askProject ::
  "('c, 'd) collaborators \<Rightarrow> 'd appStatusOpts \<Rightarrow> 'c error option \<times> 'd appStatusOpts" where
  "askProject c opts =
     (if appName opts \<noteq> [] then (None, opts)
      else case retrieveProjects c opts of
        (Inl err, opts1) \<Rightarrow> (Some err, opts1)
      | (Inr projNames, opts1) \<Rightarrow>
          if length projNames = 0
          then (Some (Errorf (''no project found: run '' @ HighlightCode c ''project init''
                                @ '' please'')), opts1)
          else
            let opts2 = record_call (SelectOneCall appStatusProjectNamePrompt
                                       appStatusProjectNameHelpPrompt projNames) opts1 in
            case SelectOne c appStatusProjectNamePrompt appStatusProjectNameHelpPrompt projNames of
              Inl err \<Rightarrow> (Some (ErrorfW ''select project: '' err), opts2)
            | Inr proj \<Rightarrow> (None, opts2\<lparr>appName := proj\<rparr>))"

section \<open>Service and environment resolution\<close>

definition retrieveAllAppNames ::
  "('c, 'd) collaborators \<Rightarrow> 'd appStatusOpts \<Rightarrow> ('c error + string list) \<times> 'd appStatusOpts" where
  "retrieveAllAppNames c opts =
     (let opts1 = record_call (ListServicesCall (appName opts)) opts in
      case ListServices c (appName opts) of
        Inl err \<Rightarrow>
          (Inl (ErrorfW (''list applications for project '' @ appName opts @ '': '') err), opts1)
      | Inr apps \<Rightarrow> (Inr (map Name apps), opts1))"

definition retrieveAllEnvNames ::
  "('c, 'd) collaborators \<Rightarrow> 'd appStatusOpts \<Rightarrow> ('c error + string list) \<times> 'd appStatusOpts" where
  "retrieveAllEnvNames c opts =
     (let opts1 = record_call (ListEnvironmentsCall (appName opts)) opts in
      case ListEnvironments c (appName opts) of
        Inl err \<Rightarrow>
          (Inl (ErrorfW (''list environments for project '' @ appName opts @ '': '') err), opts1)
      | Inr envs \<Rightarrow> (Inr (map Name envs), opts1))"

text \<open>
  The first block of \<open>askAppEnvName\<close>: \<open>appNames\<close> is the supplied service alone, or
  the listing of the catalog when no service was supplied.
\<close>

definition appNameCandidates ::
  "('c, 'd) collaborators \<Rightarrow> 'd appStatusOpts \<Rightarrow> ('c error + string list) \<times> 'd appStatusOpts" where
  "appNameCandidates c opts =
     (if svcName opts = [] then
        (case retrieveAllAppNames c opts of
           (Inl err, opts1) \<Rightarrow> (Inl err, opts1)
         | (Inr appNames, opts1) \<Rightarrow>
             if length appNames = 0
             then (Inl (Errorf (''no applications found in project ''
                                  @ HighlightUserInput c (appName opts1))), opts1)
             else (Inr appNames, opts1))
      else (Inr [svcName opts], opts))"

text \<open>The second block: \<open>envNames\<close>, in the same way.\<close>

definition envNameCandidates ::
  "('c, 'd) collaborators \<Rightarrow> 'd appStatusOpts \<Rightarrow> ('c error + string list) \<times> 'd appStatusOpts" where
  "envNameCandidates c opts =
     (if envName opts = [] then
        (case retrieveAllEnvNames c opts of
           (Inl err, opts1) \<Rightarrow> (Inl err, opts1)
         | (Inr envNames, opts1) \<Rightarrow>
             if length envNames = 0
             then (Inl (Errorf (''no environments found in project ''
                                  @ HighlightUserInput c (appName opts1))), opts1)
             else (Inr envNames, opts1))
      else (Inr [envName opts], opts))"

text \<open>
  The inner loop over \<open>envNames\<close> for one \<open>appName\<close>. The state of both loop functions is the
  options, the map \<open>appEnvs\<close> and the slice \<open>appEnvNames\<close>. \<open>continue\<close> is the recursive
  call that leaves map and slice as they are; each \<open>return\<close> ends the loop with \<open>Some\<close>
  error.
\<close>

fun probeEnvNames ::
  "('c, 'd) collaborators \<Rightarrow> string \<Rightarrow> string list
     \<Rightarrow> 'd appStatusOpts \<times> (string \<rightharpoonup> svcEnv) \<times> string list
     \<Rightarrow> 'c error option \<times> 'd appStatusOpts \<times> (string \<rightharpoonup> svcEnv) \<times> string list" where
  "probeEnvNames c app [] (opts, appEnvs, appEnvNames) = (None, opts, appEnvs, appEnvNames)"
| "probeEnvNames c app (env # envNames) (opts, appEnvs, appEnvNames) =
     (let opts1 = record_call (InitAppDescriberCall (appName opts) env app) opts in
      case initAppDescriber c (appName opts) env app of
        Inl err \<Rightarrow> (Some err, opts1, appEnvs, appEnvNames)
      | Inr d \<Rightarrow>
          let opts2 = record_call GetServiceArnCall (opts1\<lparr>appDescriber := Some d\<rparr>) in
          case GetServiceArn c d of
            Inl err \<Rightarrow>
              if IsStackNotExistsErr c err
              then probeEnvNames c app envNames (opts2, appEnvs, appEnvNames)
              else (Some (ErrorfW (''check if app '' @ app @ '' is deployed in env '' @ env
                                     @ '': '') err),
                    opts2, appEnvs, appEnvNames)
          | Inr arn \<Rightarrow>
              let appEnv = \<lparr>svcEnv.svcName = app, svcEnv.envName = env\<rparr>;
                  appEnvName = svcEnv_String c appEnv
              in probeEnvNames c app envNames
                   (opts2, appEnvs(appEnvName \<mapsto> appEnv), appEnvNames @ [appEnvName]))"

text \<open>The outer loop over \<open>appNames\<close>.\<close>

fun probeAppNames ::
  "('c, 'd) collaborators \<Rightarrow> string list \<Rightarrow> string list
     \<Rightarrow> 'd appStatusOpts \<times> (string \<rightharpoonup> svcEnv) \<times> string list
     \<Rightarrow> 'c error option \<times> 'd appStatusOpts \<times> (string \<rightharpoonup> svcEnv) \<times> string list" where
  "probeAppNames c [] envNames st = (None, st)"
| "probeAppNames c (app # appNames) envNames st =
     (case probeEnvNames c app envNames st of
        (Some err, st1) \<Rightarrow> (Some err, st1)
      | (None, st1) \<Rightarrow> probeAppNames c appNames envNames st1)"

text \<open>Indexing a Go map: a missing key gives the zero value of \<open>svcEnv\<close>.\<close>

definition index_appEnvs :: "(string \<rightharpoonup> svcEnv) \<Rightarrow> string \<Rightarrow> svcEnv" where
  "index_appEnvs appEnvs k =
     (case appEnvs k of
        None \<Rightarrow> \<lparr>svcEnv.svcName = [], svcEnv.envName = []\<rparr>
      | Some v \<Rightarrow> v)"

definition askAppEnvName ::
  "('c, 'd) collaborators \<Rightarrow> 'd appStatusOpts \<Rightarrow> 'c error option \<times> 'd appStatusOpts" where
  "askAppEnvName c opts =
     (case appNameCandidates c opts of
        (Inl err, opts1) \<Rightarrow> (Some err, opts1)
      | (Inr appNames, opts1) \<Rightarrow>
     (case envNameCandidates c opts1 of
        (Inl err, opts2) \<Rightarrow> (Some err, opts2)
      | (Inr envNames, opts2) \<Rightarrow>
     (case probeAppNames c appNames envNames (opts2, Map.empty, []) of
        (Some err, opts3, appEnvs, appEnvNames) \<Rightarrow> (Some err, opts3)
      | (None, opts3, appEnvs, appEnvNames) \<Rightarrow>
          if length appEnvNames = 0
          then (Some (Errorf (''no deployed apps found in project ''
                                @ HighlightUserInput c (appName opts3))), opts3)
          else if length appEnvNames = 1
          then
            let opts4 = record_call
                          (InfofCall (''Only found one deployed app, defaulting to: ''
                                        @ HighlightUserInput c (appEnvNames ! 0) @ [CHR 0x0A]))
                          opts3;
                opts5 = opts4\<lparr>svcName := svcEnv.svcName (index_appEnvs appEnvs (appEnvNames ! 0))\<rparr>;
                opts6 = opts5\<lparr>envName := svcEnv.envName (index_appEnvs appEnvs (appEnvNames ! 0))\<rparr>
            in (None, opts6)
          else
            let opts4 = record_call
                          (SelectOneCall (svcLogNamePrompt c) (svcLogNameHelpPrompt c) appEnvNames)
                          opts3
            in case SelectOne c (svcLogNamePrompt c) (svcLogNameHelpPrompt c) appEnvNames of
                 Inl err \<Rightarrow>
                   (Some (ErrorfW (''select deployed applications for project ''
                                     @ appName opts4 @ '': '') err), opts4)
               | Inr appEnvName \<Rightarrow>
                   let opts5 = opts4\<lparr>svcName := svcEnv.svcName (index_appEnvs appEnvs appEnvName)\<rparr>;
                       opts6 = opts5\<lparr>envName := svcEnv.envName (index_appEnvs appEnvs appEnvName)\<rparr>
                   in (None, opts6))))"

text \<open>\<open>Ask\<close>: the project first, then service and environment.\<close>

definition Ask ::
  "('c, 'd) collaborators \<Rightarrow> 'd appStatusOpts \<Rightarrow> 'c error option \<times> 'd appStatusOpts" where
  "Ask c opts =
     (case askProject c opts of
        (Some err, opts1) \<Rightarrow> (Some err, opts1)
      | (None, opts1) \<Rightarrow> askAppEnvName c opts1)"


section \<open>The vocabulary of the specification\<close>

text \<open>
  The specification speaks of a deployment probe of a (service, environment) pair with
  three outcomes. In the code one probe is one pass through the body of the inner loop:
  the call of \<open>initAppDescriber\<close> for the triple and, when that succeeds, the call of
  \<open>GetServiceArn\<close> on the describer. The definitions of this section follow the words of
  the specification and are compared with the code by the lemmas below; a pair is
  (service, environment). The failure of the probe is split by the call that failed:
  \<open>ProbeError\<close> is an error of \<open>GetServiceArn\<close> that is not the stack-not-exists
  condition, \<open>DescriberError\<close> is an error of \<open>initAppDescriber\<close>.
\<close>

datatype 'c outcome =
    Deployed
  | NotDeployed
  | ProbeError "'c error"
  | DescriberError "'c error"

definition probe :: "('c, 'd) collaborators \<Rightarrow> string \<Rightarrow> string \<times> string \<Rightarrow> 'c outcome" where
  "probe c project p =
     (case initAppDescriber c project (snd p) (fst p) of
        Inl err \<Rightarrow> DescriberError err
      | Inr d \<Rightarrow>
          (case GetServiceArn c d of
             Inr arn \<Rightarrow> Deployed
           | Inl err \<Rightarrow> if IsStackNotExistsErr c err then NotDeployed else ProbeError err))"

fun completes :: "'c outcome \<Rightarrow> bool" where
  "completes Deployed = True"
| "completes NotDeployed = True"
| "completes (ProbeError err) = False"
| "completes (DescriberError err) = False"

definition deployed :: "('c, 'd) collaborators \<Rightarrow> string \<Rightarrow> string \<times> string \<Rightarrow> bool" where
  "deployed c project p = (probe c project p = Deployed)"

text \<open>Every probe of the cross product ends in \<open>Deployed\<close> or \<open>NotDeployed\<close>.\<close>

definition allProbesComplete ::
  "('c, 'd) collaborators \<Rightarrow> string \<Rightarrow> string list \<Rightarrow> string list \<Rightarrow> bool" where
  "allProbesComplete c project appNames envNames =
     list_all (\<lambda>p. completes (probe c project p)) (List.product appNames envNames)"

text \<open>
  The deployed pairs in the order of the specification: for each service in listing
  order, for each environment in listing order.
\<close>

definition deployedPairs ::
  "('c, 'd) collaborators \<Rightarrow> string \<Rightarrow> string list \<Rightarrow> string list \<Rightarrow> (string \<times> string) list" where
  "deployedPairs c project appNames envNames =
     concat (map (\<lambda>app. map (Pair app) (filter (\<lambda>env. deployed c project (app, env)) envNames))
               appNames)"

definition pairOf :: "string \<times> string \<Rightarrow> svcEnv" where
  "pairOf p = \<lparr>svcEnv.svcName = fst p, svcEnv.envName = snd p\<rparr>"

definition displayKey :: "('c, 'd) collaborators \<Rightarrow> string \<times> string \<Rightarrow> string" where
  "displayKey c p = svcEnv_String c (pairOf p)"

text \<open>The map after the pairs of a list were stored under their display keys, in order.\<close>

definition register ::
  "('c, 'd) collaborators \<Rightarrow> (string \<times> string) list \<Rightarrow> (string \<rightharpoonup> svcEnv) \<Rightarrow> (string \<rightharpoonup> svcEnv)" where
  "register c ps m = fold (\<lambda>p m. m(displayKey c p \<mapsto> pairOf p)) ps m"

text \<open>The calls of one probe, and the catalog calls of candidate determination.\<close>

definition probe_calls :: "('c, 'd) collaborators \<Rightarrow> string \<Rightarrow> string \<times> string \<Rightarrow> event list" where
  "probe_calls c project p =
     InitAppDescriberCall project (snd p) (fst p) #
     (case initAppDescriber c project (snd p) (fst p) of
        Inl err \<Rightarrow> []
      | Inr d \<Rightarrow> [GetServiceArnCall])"

definition catalog_calls :: "'d appStatusOpts \<Rightarrow> event list" where
  "catalog_calls opts =
     (if svcName opts = [] then [ListServicesCall (appName opts)] else []) @
     (if envName opts = [] then [ListEnvironmentsCall (appName opts)] else [])"

text \<open>Projections of the list of calls: the prompts, the notices, the catalog listings,
  the probes started and the \<open>GetServiceArn\<close> calls.\<close>

fun is_SelectOneCall :: "event \<Rightarrow> bool" where
  "is_SelectOneCall (SelectOneCall prompt help choices) = True"
| "is_SelectOneCall ev = False"

fun is_InfofCall :: "event \<Rightarrow> bool" where
  "is_InfofCall (InfofCall msg) = True"
| "is_InfofCall ev = False"

fun is_listing :: "event \<Rightarrow> bool" where
  "is_listing ListApplicationsCall = True"
| "is_listing (ListServicesCall project) = True"
| "is_listing (ListEnvironmentsCall project) = True"
| "is_listing ev = False"

fun is_InitAppDescriberCall :: "event \<Rightarrow> bool" where
  "is_InitAppDescriberCall (InitAppDescriberCall project env svc) = True"
| "is_InitAppDescriberCall ev = False"

fun is_GetServiceArnCall :: "event \<Rightarrow> bool" where
  "is_GetServiceArnCall GetServiceArnCall = True"
| "is_GetServiceArnCall ev = False"

definition chooser_calls :: "event list \<Rightarrow> event list" where
  "chooser_calls tr = filter is_SelectOneCall tr"

definition notices :: "event list \<Rightarrow> event list" where
  "notices tr = filter is_InfofCall tr"

definition listing_calls :: "event list \<Rightarrow> event list" where
  "listing_calls tr = filter is_listing tr"

definition probes_started :: "event list \<Rightarrow> event list" where
  "probes_started tr = filter is_InitAppDescriberCall tr"

definition arn_calls :: "event list \<Rightarrow> event list" where
  "arn_calls tr = filter is_GetServiceArnCall tr"

text \<open>The error that a failed probe of \<open>app\<close> in \<open>env\<close> is reported with.\<close>

fun isProbeFailed :: "string \<Rightarrow> string \<Rightarrow> 'c error \<Rightarrow> bool" where
  "isProbeFailed app env (ErrorfW msg cause) =
     (msg = ''check if app '' @ app @ '' is deployed in env '' @ env @ '': '')"
| "isProbeFailed app env (External x) = False"
| "isProbeFailed app env (Errorf msg) = False"

text \<open>
  The nested iteration as one loop over a list of pairs: a device of the proofs, equal to
  \<open>probeAppNames\<close> on the cross product.
\<close>

fun probePairs ::
  "('c, 'd) collaborators \<Rightarrow> (string \<times> string) list
     \<Rightarrow> 'd appStatusOpts \<times> (string \<rightharpoonup> svcEnv) \<times> string list
     \<Rightarrow> 'c error option \<times> 'd appStatusOpts \<times> (string \<rightharpoonup> svcEnv) \<times> string list" where
  "probePairs c [] st = (None, st)"
| "probePairs c (p # ps) st =
     (case probeEnvNames c (fst p) [snd p] st of
        (Some err, st1) \<Rightarrow> (Some err, st1)
      | (None, st1) \<Rightarrow> probePairs c ps st1)"

section \<open>A concrete project\<close>

text \<open>
  Project \<open>coffee\<close> with services \<open>api\<close> and \<open>web\<close> and environments \<open>test\<close> and
  \<open>prod\<close>; only \<open>api\<close> in \<open>test\<close> and \<open>web\<close> in \<open>prod\<close> are deployed, every other stack
  does not exist. A describer is the triple it was created for, the prompt answers with
  the first choice, and a display key is \<open>service/environment\<close>.
\<close>

definition coffee :: "(string, string \<times> string \<times> string) collaborators" where
  "coffee =
     \<lparr>ListApplications = Inr [\<lparr>Name = ''coffee''\<rparr>],
      ListServices = (\<lambda>project. Inr [\<lparr>Name = ''api''\<rparr>, \<lparr>Name = ''web''\<rparr>]),
      ListEnvironments = (\<lambda>project. Inr [\<lparr>Name = ''test''\<rparr>, \<lparr>Name = ''prod''\<rparr>]),
      initAppDescriber = (\<lambda>project env svc. Inr (project, env, svc)),
      GetServiceArn = (\<lambda>(project, env, svc).
         if (svc = ''api'' \<and> env = ''test'') \<or> (svc = ''web'' \<and> env = ''prod'')
         then Inr ''arn'' else Inl (External ''stack not found'')),
      IsStackNotExistsErr = (\<lambda>err. err = External ''stack not found''),
      SelectOne = (\<lambda>prompt help choices.
         case choices of [] \<Rightarrow> Inl (External ''no choices'') | x # xs \<Rightarrow> Inr x),
      svcEnv_String = (\<lambda>v. svcEnv.svcName v @ ''/'' @ svcEnv.envName v),
      HighlightUserInput = (\<lambda>s. s),
      HighlightCode = (\<lambda>s. s),
      svcLogNamePrompt = ''Which application?'',
      svcLogNameHelpPrompt = ''Deployed applications.''\<rparr>"

text \<open>The options with the given project, service and environment flags and no call made.\<close>

definition flags :: "string \<Rightarrow> string \<Rightarrow> string \<Rightarrow> (string \<times> string \<times> string) appStatusOpts" where
  "flags project svc env =
     \<lparr>appName = project, svcName = svc, envName = env, appDescriber = None, calls = []\<rparr>"

text \<open>The same project when the stack of \<open>web\<close> in \<open>test\<close> cannot be read.\<close>

definition coffee_throttled :: "(string, string \<times> string \<times> string) collaborators" where
  "coffee_throttled =
     coffee\<lparr>GetServiceArn := (\<lambda>(project, env, svc).
         if svc = ''web'' \<and> env = ''test'' then Inl (External ''throttled'')
         else GetServiceArn coffee (project, env, svc))\<rparr>"

text \<open>The same project when no describer can be created, with the production
  \<open>initAppDescriber\<close>.\<close>

definition coffee_no_session :: "(string, string \<times> string \<times> string) collaborators" where
  "coffee_no_session =
     coffee\<lparr>initAppDescriber :=
       newAppStatusOpts_initAppDescriber (\<lambda>project env svc. Inl (External ''no session''))\<rparr>"

text \<open>The same project with a prompt that answers with a string that was not offered,
  and with a prompt that is interrupted.\<close>

definition coffee_stray_answer :: "(string, string \<times> string \<times> string) collaborators" where
  "coffee_stray_answer = coffee\<lparr>SelectOne := (\<lambda>prompt help choices. Inr ''tea/dev'')\<rparr>"

definition coffee_interrupted :: "(string, string \<times> string \<times> string) collaborators" where
  "coffee_interrupted = coffee\<lparr>SelectOne := (\<lambda>prompt help choices. Inl (External ''interrupt''))\<rparr>"


section \<open>The probing loop and the probes of the specification\<close>

text \<open>
  The nested iteration is one loop over the cross product, service-major; a probe that
  completes adds its pair when deployed and nothing otherwise; the first probe that fails
  ends the loop.
\<close>

lemma probeEnvNames_probePairs:
  "probeEnvNames c app envNames st = probePairs c (map (Pair app) envNames) st"
proof (induction envNames arbitrary: st)
  case Nil
  show ?case by (cases st) simp
next
  case (Cons env envNames)
  obtain opts m ks where st: "st = (opts, m, ks)" by (cases st)
  show ?case unfolding st
    by (simp add: Let_def Cons.IH split: sum.splits)
qed

lemma probePairs_append:
  "probePairs c (xs @ ys) st =
     (case probePairs c xs st of
        (Some err, st1) \<Rightarrow> (Some err, st1)
      | (None, st1) \<Rightarrow> probePairs c ys st1)"
  by (induction xs arbitrary: st) (auto split: prod.splits option.splits)

lemma probeAppNames_probePairs:
  "probeAppNames c appNames envNames st = probePairs c (List.product appNames envNames) st"
  by (induction appNames arbitrary: st)
     (auto simp: probePairs_append probeEnvNames_probePairs split: prod.splits option.splits)


lemma step_Deployed:
  assumes "probe c (appName opts) p = Deployed"
  shows "\<exists>d. probeEnvNames c (fst p) [snd p] (opts, m, ks) =
           (None,
            opts\<lparr>appDescriber := Some d, calls := calls opts @ probe_calls c (appName opts) p\<rparr>,
            m(displayKey c p \<mapsto> pairOf p), ks @ [displayKey c p])"
  using assms
  by (auto simp: probe_def probe_calls_def record_call_def displayKey_def pairOf_def Let_def
           split: sum.splits if_splits)

lemma step_NotDeployed:
  assumes "probe c (appName opts) p = NotDeployed"
  shows "\<exists>d. probeEnvNames c (fst p) [snd p] (opts, m, ks) =
           (None,
            opts\<lparr>appDescriber := Some d, calls := calls opts @ probe_calls c (appName opts) p\<rparr>,
            m, ks)"
  using assms
  by (auto simp: probe_def probe_calls_def record_call_def Let_def
           split: sum.splits if_splits)

lemma step_ProbeError:
  assumes "probe c (appName opts) p = ProbeError cause"
  shows "\<exists>d. probeEnvNames c (fst p) [snd p] (opts, m, ks) =
           (Some (ErrorfW (''check if app '' @ fst p @ '' is deployed in env '' @ snd p @ '': '')
                    cause),
            opts\<lparr>appDescriber := Some d, calls := calls opts @ probe_calls c (appName opts) p\<rparr>,
            m, ks)"
  using assms
  by (auto simp: probe_def probe_calls_def record_call_def Let_def
           split: sum.splits if_splits)

lemma step_DescriberError:
  assumes "probe c (appName opts) p = DescriberError cause"
  shows "probeEnvNames c (fst p) [snd p] (opts, m, ks) =
           (Some cause,
            opts\<lparr>calls := calls opts @ probe_calls c (appName opts) p\<rparr>,
            m, ks)"
  using assms
  by (auto simp: probe_def probe_calls_def record_call_def Let_def
           split: sum.splits if_splits)

lemma probePairs_completes:
  assumes "\<forall>p\<in>set ps. completes (probe c (appName opts) p)"
  shows "\<exists>d. probePairs c ps (opts, m, ks) =
           (None,
            opts\<lparr>appDescriber := d,
                 calls := calls opts @ concat (map (probe_calls c (appName opts)) ps)\<rparr>,
            register c (filter (deployed c (appName opts)) ps) m,
            ks @ map (displayKey c) (filter (deployed c (appName opts)) ps))"
  using assms
proof (induction ps arbitrary: opts m ks)
  case Nil
  show ?case by (auto simp: register_def intro: exI[of _ "appDescriber opts"])
next
  case (Cons p ps)
  from Cons.prems have tl: "\<forall>q\<in>set ps. completes (probe c (appName opts) q)"
    and hd: "completes (probe c (appName opts) p)" by simp_all
  show ?case
  proof (cases "probe c (appName opts) p")
    case Deployed
    from step_Deployed[OF Deployed, of m ks] obtain d0 where
      s: "probeEnvNames c (fst p) [snd p] (opts, m, ks) =
           (None,
            opts\<lparr>appDescriber := Some d0, calls := calls opts @ probe_calls c (appName opts) p\<rparr>,
            m(displayKey c p \<mapsto> pairOf p), ks @ [displayKey c p])" by blast
    let ?o = "opts\<lparr>appDescriber := Some d0, calls := calls opts @ probe_calls c (appName opts) p\<rparr>"
    have "\<forall>q\<in>set ps. completes (probe c (appName ?o) q)" using tl by simp
    from Cons.IH[OF this, of "m(displayKey c p \<mapsto> pairOf p)" "ks @ [displayKey c p]"]
    obtain d where ih: "probePairs c ps (?o, m(displayKey c p \<mapsto> pairOf p), ks @ [displayKey c p]) =
           (None,
            ?o\<lparr>appDescriber := d,
                 calls := calls ?o @ concat (map (probe_calls c (appName ?o)) ps)\<rparr>,
            register c (filter (deployed c (appName ?o)) ps) (m(displayKey c p \<mapsto> pairOf p)),
            (ks @ [displayKey c p]) @ map (displayKey c) (filter (deployed c (appName ?o)) ps))"
      by blast
    have "probePairs c (p # ps) (opts, m, ks) =
           (None,
            opts\<lparr>appDescriber := d,
                 calls := calls opts @ concat (map (probe_calls c (appName opts)) (p # ps))\<rparr>,
            register c (filter (deployed c (appName opts)) (p # ps)) m,
            ks @ map (displayKey c) (filter (deployed c (appName opts)) (p # ps)))"
      using Deployed by (simp add: s ih register_def deployed_def del: probeEnvNames.simps)
    then show ?thesis by blast
  next
    case NotDeployed
    from step_NotDeployed[OF NotDeployed, of m ks] obtain d0 where
      s: "probeEnvNames c (fst p) [snd p] (opts, m, ks) =
           (None,
            opts\<lparr>appDescriber := Some d0, calls := calls opts @ probe_calls c (appName opts) p\<rparr>,
            m, ks)" by blast
    let ?o = "opts\<lparr>appDescriber := Some d0, calls := calls opts @ probe_calls c (appName opts) p\<rparr>"
    have "\<forall>q\<in>set ps. completes (probe c (appName ?o) q)" using tl by simp
    from Cons.IH[OF this, of m ks]
    obtain d where ih: "probePairs c ps (?o, m, ks) =
           (None,
            ?o\<lparr>appDescriber := d,
                 calls := calls ?o @ concat (map (probe_calls c (appName ?o)) ps)\<rparr>,
            register c (filter (deployed c (appName ?o)) ps) m,
            ks @ map (displayKey c) (filter (deployed c (appName ?o)) ps))"
      by blast
    have "probePairs c (p # ps) (opts, m, ks) =
           (None,
            opts\<lparr>appDescriber := d,
                 calls := calls opts @ concat (map (probe_calls c (appName opts)) (p # ps))\<rparr>,
            register c (filter (deployed c (appName opts)) (p # ps)) m,
            ks @ map (displayKey c) (filter (deployed c (appName opts)) (p # ps)))"
      using NotDeployed by (simp add: s ih register_def deployed_def del: probeEnvNames.simps)
    then show ?thesis by blast
  next
    case (ProbeError e)
    with hd show ?thesis by simp
  next
    case (DescriberError e)
    with hd show ?thesis by simp
  qed
qed

lemma probePairs_first_failure:
  assumes "\<forall>q\<in>set pre. completes (probe c (appName opts) q)"
  shows "(probe c (appName opts) p = ProbeError cause \<longrightarrow>
           (\<exists>d. probePairs c (pre @ p # post) (opts, m, ks) =
             (Some (ErrorfW (''check if app '' @ fst p @ '' is deployed in env '' @ snd p @ '': '')
                    cause),
              opts\<lparr>appDescriber := d,
                   calls := calls opts @ concat (map (probe_calls c (appName opts)) (pre @ [p]))\<rparr>,
              register c (filter (deployed c (appName opts)) pre) m,
              ks @ map (displayKey c) (filter (deployed c (appName opts)) pre)))) \<and>
         (probe c (appName opts) p = DescriberError cause \<longrightarrow>
           (\<exists>d. probePairs c (pre @ p # post) (opts, m, ks) =
             (Some cause,
              opts\<lparr>appDescriber := d,
                   calls := calls opts @ concat (map (probe_calls c (appName opts)) (pre @ [p]))\<rparr>,
              register c (filter (deployed c (appName opts)) pre) m,
              ks @ map (displayKey c) (filter (deployed c (appName opts)) pre))))"
proof -
  from probePairs_completes[OF assms, of m ks] obtain d0 where
    pre: "probePairs c pre (opts, m, ks) =
           (None,
            opts\<lparr>appDescriber := d0,
                 calls := calls opts @ concat (map (probe_calls c (appName opts)) pre)\<rparr>,
            register c (filter (deployed c (appName opts)) pre) m,
            ks @ map (displayKey c) (filter (deployed c (appName opts)) pre))" by blast
  let ?o = "opts\<lparr>appDescriber := d0,
                 calls := calls opts @ concat (map (probe_calls c (appName opts)) pre)\<rparr>"
  have an: "appName ?o = appName opts" by simp
  show ?thesis
  proof (intro conjI impI)
    assume "probe c (appName opts) p = ProbeError cause"
    then have "probe c (appName ?o) p = ProbeError cause" by simp
    from step_ProbeError[OF this, of "register c (filter (deployed c (appName opts)) pre) m" "ks @ map (displayKey c) (filter (deployed c (appName opts)) pre)"]
    show "\<exists>d. probePairs c (pre @ p # post) (opts, m, ks) =
             (Some (ErrorfW (''check if app '' @ fst p @ '' is deployed in env '' @ snd p @ '': '')
                    cause),
              opts\<lparr>appDescriber := d,
                   calls := calls opts @ concat (map (probe_calls c (appName opts)) (pre @ [p]))\<rparr>,
              register c (filter (deployed c (appName opts)) pre) m,
              ks @ map (displayKey c) (filter (deployed c (appName opts)) pre))"
      by (auto simp add: probePairs_append pre simp del: probeEnvNames.simps)
  next
    assume "probe c (appName opts) p = DescriberError cause"
    then have "probe c (appName ?o) p = DescriberError cause" by simp
    from step_DescriberError[OF this, of "register c (filter (deployed c (appName opts)) pre) m" "ks @ map (displayKey c) (filter (deployed c (appName opts)) pre)"]
    show "\<exists>d. probePairs c (pre @ p # post) (opts, m, ks) =
             (Some cause,
              opts\<lparr>appDescriber := d,
                   calls := calls opts @ concat (map (probe_calls c (appName opts)) (pre @ [p]))\<rparr>,
              register c (filter (deployed c (appName opts)) pre) m,
              ks @ map (displayKey c) (filter (deployed c (appName opts)) pre))"
      by (auto simp add: probePairs_append pre simp del: probeEnvNames.simps)
  qed
qed

lemma deployedPairs_filter:
  "deployedPairs c project appNames envNames =
     filter (deployed c project) (List.product appNames envNames)"
  by (induction appNames) (simp_all add: deployedPairs_def filter_map comp_def)

lemma appNameCandidates_Inr:
  assumes "appNameCandidates c opts = (Inr appNames, opts1)"
  shows "opts1 = opts\<lparr>calls := calls opts @
                    (if svcName opts = [] then [ListServicesCall (appName opts)] else [])\<rparr>"
  using assms
  by (auto simp: appNameCandidates_def retrieveAllAppNames_def record_call_def Let_def
           split: if_splits sum.splits)

lemma envNameCandidates_Inr:
  assumes "envNameCandidates c opts = (Inr envNames, opts1)"
  shows "opts1 = opts\<lparr>calls := calls opts @
                    (if envName opts = [] then [ListEnvironmentsCall (appName opts)] else [])\<rparr>"
  using assms
  by (auto simp: envNameCandidates_def retrieveAllEnvNames_def record_call_def Let_def
           split: if_splits sum.splits)

lemma candidates_frame:
  assumes "appNameCandidates c opts = (Inr appNames, opts1)"
    and "envNameCandidates c opts1 = (Inr envNames, opts2)"
  shows "opts2 = opts\<lparr>calls := calls opts @ catalog_calls opts\<rparr>"
  using appNameCandidates_Inr[OF assms(1)] envNameCandidates_Inr[OF assms(2)]
  by (simp add: catalog_calls_def)

lemma probing_completes:
  assumes "appNameCandidates c opts = (Inr appNames, opts1)"
    and "envNameCandidates c opts1 = (Inr envNames, opts2)"
    and "allProbesComplete c (appName opts) appNames envNames"
  shows "\<exists>d. probeAppNames c appNames envNames (opts2, Map.empty, []) =
           (None,
            opts\<lparr>appDescriber := d,
                 calls := calls opts @ catalog_calls opts @
                   concat (map (probe_calls c (appName opts)) (List.product appNames envNames))\<rparr>,
            register c (deployedPairs c (appName opts) appNames envNames) Map.empty,
            map (displayKey c) (deployedPairs c (appName opts) appNames envNames))"
proof -
  let ?o = "opts\<lparr>calls := calls opts @ catalog_calls opts\<rparr>"
  have o2: "opts2 = ?o" by (rule candidates_frame[OF assms(1,2)])
  have "\<forall>p\<in>set (List.product appNames envNames). completes (probe c (appName ?o) p)"
    using assms(3) by (simp add: allProbesComplete_def list_all_iff)
  from probePairs_completes[OF this, of Map.empty "[]"]
  show ?thesis
    by (simp add: o2 probeAppNames_probePairs deployedPairs_filter)
qed

lemma probing_fails:
  assumes "appNameCandidates c opts = (Inr appNames, opts1)"
    and "envNameCandidates c opts1 = (Inr envNames, opts2)"
    and "List.product appNames envNames = pre @ p # post"
    and "\<forall>q\<in>set pre. completes (probe c (appName opts) q)"
  shows "(probe c (appName opts) p = ProbeError cause \<longrightarrow>
           (\<exists>d m ks. probeAppNames c appNames envNames (opts2, Map.empty, []) =
             (Some (ErrorfW (''check if app '' @ fst p @ '' is deployed in env '' @ snd p @ '': '')
                    cause),
              opts\<lparr>appDescriber := d,
                   calls := calls opts @ catalog_calls opts @
                     concat (map (probe_calls c (appName opts)) (pre @ [p]))\<rparr>, m, ks))) \<and>
         (probe c (appName opts) p = DescriberError cause \<longrightarrow>
           (\<exists>d m ks. probeAppNames c appNames envNames (opts2, Map.empty, []) =
             (Some cause,
              opts\<lparr>appDescriber := d,
                   calls := calls opts @ catalog_calls opts @
                     concat (map (probe_calls c (appName opts)) (pre @ [p]))\<rparr>, m, ks)))"
proof -
  let ?o = "opts\<lparr>calls := calls opts @ catalog_calls opts\<rparr>"
  have o2: "opts2 = ?o" by (rule candidates_frame[OF assms(1,2)])
  have "\<forall>q\<in>set pre. completes (probe c (appName ?o) q)"
    using assms(4) by simp
  from probePairs_first_failure[OF this, of p cause post Map.empty "[]"]
  show ?thesis
    by (simp add: o2 probeAppNames_probePairs assms(3)) blast
qed

lemma chooser_calls_append [simp]:
  "chooser_calls (xs @ ys) = chooser_calls xs @ chooser_calls ys"
  by (simp add: chooser_calls_def)

lemma notices_append [simp]: "notices (xs @ ys) = notices xs @ notices ys"
  by (simp add: notices_def)

lemma listing_calls_append [simp]:
  "listing_calls (xs @ ys) = listing_calls xs @ listing_calls ys"
  by (simp add: listing_calls_def)

lemma probes_started_append [simp]:
  "probes_started (xs @ ys) = probes_started xs @ probes_started ys"
  by (simp add: probes_started_def)

lemma arn_calls_append [simp]: "arn_calls (xs @ ys) = arn_calls xs @ arn_calls ys"
  by (simp add: arn_calls_def)

lemma catalog_calls_projections [simp]:
  "chooser_calls (catalog_calls opts) = []"
  "notices (catalog_calls opts) = []"
  "probes_started (catalog_calls opts) = []"
  "arn_calls (catalog_calls opts) = []"
  by (simp_all add: catalog_calls_def chooser_calls_def notices_def probes_started_def
        arn_calls_def)

lemma probe_calls_projections [simp]:
  "chooser_calls (concat (map (probe_calls c project) ps)) = []"
  "notices (concat (map (probe_calls c project) ps)) = []"
  "listing_calls (concat (map (probe_calls c project) ps)) = []"
  "probes_started (concat (map (probe_calls c project) ps)) =
     map (\<lambda>p. InitAppDescriberCall project (snd p) (fst p)) ps"
  by (induction ps)
     (simp_all add: probe_calls_def chooser_calls_def notices_def listing_calls_def
        probes_started_def split: sum.splits)

section \<open>Projections of the calls and the stored pairs\<close>

lemma projections_Nil [simp]:
  "chooser_calls [] = []" "notices [] = []" "listing_calls [] = []"
  "probes_started [] = []" "arn_calls [] = []"
  by (simp_all add: chooser_calls_def notices_def listing_calls_def probes_started_def
        arn_calls_def)

lemma projections_Cons [simp]:
  "chooser_calls (ev # tr) = (if is_SelectOneCall ev then ev # chooser_calls tr else chooser_calls tr)"
  "notices (ev # tr) = (if is_InfofCall ev then ev # notices tr else notices tr)"
  "listing_calls (ev # tr) = (if is_listing ev then ev # listing_calls tr else listing_calls tr)"
  "probes_started (ev # tr) =
     (if is_InitAppDescriberCall ev then ev # probes_started tr else probes_started tr)"
  "arn_calls (ev # tr) = (if is_GetServiceArnCall ev then ev # arn_calls tr else arn_calls tr)"
  by (simp_all add: chooser_calls_def notices_def listing_calls_def probes_started_def
        arn_calls_def)

lemma register_single [simp]:
  "register c [p] m = m(displayKey c p \<mapsto> pairOf p)"
  by (simp add: register_def)

lemma register_Nil [simp]: "register c [] m = m"
  by (simp add: register_def)

lemma dom_register: "dom (register c ps m) = dom m \<union> displayKey c ` set ps"
  by (induction ps arbitrary: m) (auto simp: register_def)

section \<open>Claims about service and environment resolution\<close>

text \<open>
  Claim C1. Whenever candidate determination succeeds, every probe of the cross product
  completes and exactly one pair \<open>(app, env)\<close> is deployed, \<open>askAppEnvName\<close> returns no
  error with \<open>svcName = app\<close> and \<open>envName = env\<close>, makes no call of the prompt, and logs
  one notice whose text contains the display key of that pair.
\<close>

theorem askAppEnvName_single_deployed_pair:
  assumes "appNameCandidates c opts = (Inr appNames, opts1)"
    and "envNameCandidates c opts1 = (Inr envNames, opts2)"
    and "allProbesComplete c (appName opts) appNames envNames"
    and "deployedPairs c (appName opts) appNames envNames = [(app, env)]"
  shows "\<exists>opts'. askAppEnvName c opts = (None, opts') \<and>
           svcName opts' = app \<and> envName opts' = env \<and> appName opts' = appName opts \<and>
           calls opts' =
             calls opts @ catalog_calls opts @
             concat (map (probe_calls c (appName opts)) (List.product appNames envNames)) @
             [InfofCall (''Only found one deployed app, defaulting to: ''
                           @ HighlightUserInput c (displayKey c (app, env)) @ [CHR 0x0A])] \<and>
           chooser_calls (calls opts') = chooser_calls (calls opts) \<and>
           notices (calls opts') =
             notices (calls opts) @
             [InfofCall (''Only found one deployed app, defaulting to: ''
                           @ HighlightUserInput c (displayKey c (app, env)) @ [CHR 0x0A])]"
proof -
  from probing_completes[OF assms(1,2,3)] obtain d where
    loop: "probeAppNames c appNames envNames (opts2, Map.empty, []) =
           (None,
            opts\<lparr>appDescriber := d,
                 calls := calls opts @ catalog_calls opts @
                   concat (map (probe_calls c (appName opts)) (List.product appNames envNames))\<rparr>,
            register c (deployedPairs c (appName opts) appNames envNames) Map.empty,
            map (displayKey c) (deployedPairs c (appName opts) appNames envNames))"
    by blast
  show ?thesis
    by (simp add: askAppEnvName_def assms(1,2,4) loop record_call_def index_appEnvs_def
          pairOf_def Let_def)
qed

text \<open>
  Claim C4. Whenever candidate determination succeeds, every probe of the cross product
  completes and no pair is deployed, \<open>askAppEnvName\<close> fails with the error
  \<open>no deployed apps found in project\<close> followed by the project, and makes no call of the
  prompt.
\<close>

theorem askAppEnvName_no_deployed_pair:
  assumes "appNameCandidates c opts = (Inr appNames, opts1)"
    and "envNameCandidates c opts1 = (Inr envNames, opts2)"
    and "allProbesComplete c (appName opts) appNames envNames"
    and "deployedPairs c (appName opts) appNames envNames = []"
  shows "\<exists>opts'. askAppEnvName c opts =
             (Some (Errorf (''no deployed apps found in project ''
                              @ HighlightUserInput c (appName opts))), opts') \<and>
           calls opts' =
             calls opts @ catalog_calls opts @
             concat (map (probe_calls c (appName opts)) (List.product appNames envNames)) \<and>
           chooser_calls (calls opts') = chooser_calls (calls opts)"
proof -
  from probing_completes[OF assms(1,2,3)] obtain d where
    loop: "probeAppNames c appNames envNames (opts2, Map.empty, []) =
           (None,
            opts\<lparr>appDescriber := d,
                 calls := calls opts @ catalog_calls opts @
                   concat (map (probe_calls c (appName opts)) (List.product appNames envNames))\<rparr>,
            register c (deployedPairs c (appName opts) appNames envNames) Map.empty,
            map (displayKey c) (deployedPairs c (appName opts) appNames envNames))"
    by blast
  show ?thesis
    by (simp add: askAppEnvName_def assms(1,2,4) loop)
qed


text \<open>
  Claim C9. When the prompt answers with a string that is not among the offered choices,
  \<open>askAppEnvName\<close> returns no error, and both \<open>svcName\<close> and \<open>envName\<close> are set to the
  empty string, the fields of the zero value that the map yields for a missing key.
\<close>

theorem askAppEnvName_answer_not_offered:
  assumes "appNameCandidates c opts = (Inr appNames, opts1)"
    and "envNameCandidates c opts1 = (Inr envNames, opts2)"
    and "allProbesComplete c (appName opts) appNames envNames"
    and "1 < length (deployedPairs c (appName opts) appNames envNames)"
    and "SelectOne c (svcLogNamePrompt c) (svcLogNameHelpPrompt c)
           (map (displayKey c) (deployedPairs c (appName opts) appNames envNames)) = Inr answer"
    and "answer \<notin> set (map (displayKey c) (deployedPairs c (appName opts) appNames envNames))"
  shows "\<exists>opts'. askAppEnvName c opts = (None, opts') \<and> svcName opts' = [] \<and> envName opts' = []"
proof -
  from probing_completes[OF assms(1,2,3)] obtain d where
    loop: "probeAppNames c appNames envNames (opts2, Map.empty, []) =
           (None,
            opts\<lparr>appDescriber := d,
                 calls := calls opts @ catalog_calls opts @
                   concat (map (probe_calls c (appName opts)) (List.product appNames envNames))\<rparr>,
            register c (deployedPairs c (appName opts) appNames envNames) Map.empty,
            map (displayKey c) (deployedPairs c (appName opts) appNames envNames))"
    by blast
  from assms(4) have ne: "deployedPairs c (appName opts) appNames envNames \<noteq> []"
    and n1: "length (deployedPairs c (appName opts) appNames envNames) \<noteq> Suc 0"
    by auto
  have "answer \<notin> dom (register c (deployedPairs c (appName opts) appNames envNames) Map.empty)"
    using assms(6) by (simp add: dom_register)
  then have miss: "register c (deployedPairs c (appName opts) appNames envNames) Map.empty answer
                     = None"
    by blast
  show ?thesis
    by (simp add: askAppEnvName_def assms(1,2,5) loop ne n1 record_call_def Let_def
          index_appEnvs_def miss)
qed


section \<open>The concrete project, evaluated\<close>

lemma coffee_probe_outcomes:
  "probe coffee ''coffee'' (''api'', ''test'') = Deployed"
  "probe coffee ''coffee'' (''api'', ''prod'') = NotDeployed"
  "probe coffee ''coffee'' (''web'', ''test'') = NotDeployed"
  "probe coffee ''coffee'' (''web'', ''prod'') = Deployed"
  by (simp_all add: probe_def coffee_def)

text \<open>
  Project \<open>coffee\<close> with service \<open>api\<close> given and the environment left open: only
  \<open>api/test\<close> is deployed, and it is chosen without a prompt.
\<close>

theorem askAppEnvName_single_deployed_pair_witness:
  "\<exists>opts'. askAppEnvName coffee (flags ''coffee'' ''api'' []) = (None, opts') \<and>
     svcName opts' = ''api'' \<and> envName opts' = ''test'' \<and> appName opts' = ''coffee'' \<and>
     calls opts' =
       [ListEnvironmentsCall ''coffee'',
        InitAppDescriberCall ''coffee'' ''test'' ''api'', GetServiceArnCall,
        InitAppDescriberCall ''coffee'' ''prod'' ''api'', GetServiceArnCall,
        InfofCall (''Only found one deployed app, defaulting to: api/test'' @ [CHR 0x0A])] \<and>
     chooser_calls (calls opts') = [] \<and>
     notices (calls opts') =
       [InfofCall (''Only found one deployed app, defaulting to: api/test'' @ [CHR 0x0A])]"
proof -
  let ?opts = "flags ''coffee'' ''api'' []"
  have h1: "appNameCandidates coffee ?opts = (Inr [''api''], ?opts)"
    by (simp add: appNameCandidates_def flags_def)
  have h2: "envNameCandidates coffee ?opts =
              (Inr [''test'', ''prod''], record_call (ListEnvironmentsCall ''coffee'') ?opts)"
    by (simp add: envNameCandidates_def retrieveAllEnvNames_def flags_def coffee_def)
  have an: "appName ?opts = ''coffee''" by (simp add: flags_def)
  have h3: "allProbesComplete coffee (appName ?opts) [''api''] [''test'', ''prod'']"
    by (simp add: an allProbesComplete_def coffee_probe_outcomes)
  have h4: "deployedPairs coffee (appName ?opts) [''api''] [''test'', ''prod'']
              = [(''api'', ''test'')]"
    by (simp add: an deployedPairs_def deployed_def coffee_probe_outcomes)
  have k: "displayKey coffee (''api'', ''test'') = ''api/test''"
    by (simp add: displayKey_def pairOf_def coffee_def)
  have hl: "HighlightUserInput coffee = (\<lambda>s. s)" by (simp add: coffee_def)
  have pc: "probe_calls coffee ''coffee'' (''api'', ''test'') =
              [InitAppDescriberCall ''coffee'' ''test'' ''api'', GetServiceArnCall]"
     "probe_calls coffee ''coffee'' (''api'', ''prod'') =
              [InitAppDescriberCall ''coffee'' ''prod'' ''api'', GetServiceArnCall]"
    by (simp_all add: probe_calls_def coffee_def)
  have cc: "catalog_calls ?opts = [ListEnvironmentsCall ''coffee'']"
    "calls ?opts = []"
    by (simp_all add: catalog_calls_def flags_def)
  show ?thesis
    using askAppEnvName_single_deployed_pair[OF h1 h2 h3 h4]
    by (simp add: an k hl pc cc)
qed

text \<open>Service \<open>api\<close> and environment \<open>prod\<close> given: the one candidate is not deployed.\<close>

theorem askAppEnvName_no_deployed_pair_witness:
  "\<exists>opts'. askAppEnvName coffee (flags ''coffee'' ''api'' ''prod'') =
       (Some (Errorf ''no deployed apps found in project coffee''), opts') \<and>
     calls opts' = [InitAppDescriberCall ''coffee'' ''prod'' ''api'', GetServiceArnCall] \<and>
     chooser_calls (calls opts') = []"
proof -
  let ?opts = "flags ''coffee'' ''api'' ''prod''"
  have h1: "appNameCandidates coffee ?opts = (Inr [''api''], ?opts)"
    by (simp add: appNameCandidates_def flags_def)
  have h2: "envNameCandidates coffee ?opts = (Inr [''prod''], ?opts)"
    by (simp add: envNameCandidates_def flags_def)
  have an: "appName ?opts = ''coffee''" by (simp add: flags_def)
  have h3: "allProbesComplete coffee (appName ?opts) [''api''] [''prod'']"
    by (simp add: an allProbesComplete_def coffee_probe_outcomes)
  have h4: "deployedPairs coffee (appName ?opts) [''api''] [''prod''] = []"
    by (simp add: an deployedPairs_def deployed_def coffee_probe_outcomes)
  have hl: "HighlightUserInput coffee = (\<lambda>s. s)" by (simp add: coffee_def)
  have pc: "probe_calls coffee ''coffee'' (''api'', ''prod'') =
              [InitAppDescriberCall ''coffee'' ''prod'' ''api'', GetServiceArnCall]"
    by (simp_all add: probe_calls_def coffee_def)
  have cc: "catalog_calls ?opts = []" "calls ?opts = []"
    by (simp_all add: catalog_calls_def flags_def)
  show ?thesis
    using askAppEnvName_no_deployed_pair[OF h1 h2 h3 h4]
    by (simp add: an hl pc cc)
qed

lemma coffee_listing:
  "appNameCandidates coffee (flags ''coffee'' [] []) =
     (Inr [''api'', ''web''], record_call (ListServicesCall ''coffee'') (flags ''coffee'' [] []))"
  "envNameCandidates coffee (record_call (ListServicesCall ''coffee'') (flags ''coffee'' [] [])) =
     (Inr [''test'', ''prod''],
      record_call (ListEnvironmentsCall ''coffee'')
        (record_call (ListServicesCall ''coffee'') (flags ''coffee'' [] [])))"
  "allProbesComplete coffee (appName (flags ''coffee'' [] [])) [''api'', ''web''] [''test'', ''prod'']"
  "deployedPairs coffee (appName (flags ''coffee'' [] [])) [''api'', ''web''] [''test'', ''prod'']
     = [(''api'', ''test''), (''web'', ''prod'')]"
  by (simp_all add: appNameCandidates_def retrieveAllAppNames_def envNameCandidates_def
        retrieveAllEnvNames_def flags_def coffee_def record_call_def allProbesComplete_def
        deployedPairs_def deployed_def probe_def)



lemma coffee_stray_answer_listing:
  "appNameCandidates coffee_stray_answer (flags ''coffee'' [] []) =
     (Inr [''api'', ''web''], record_call (ListServicesCall ''coffee'') (flags ''coffee'' [] []))"
  "envNameCandidates coffee_stray_answer
      (record_call (ListServicesCall ''coffee'') (flags ''coffee'' [] [])) =
     (Inr [''test'', ''prod''],
      record_call (ListEnvironmentsCall ''coffee'')
        (record_call (ListServicesCall ''coffee'') (flags ''coffee'' [] [])))"
  "allProbesComplete coffee_stray_answer (appName (flags ''coffee'' [] []))
     [''api'', ''web''] [''test'', ''prod'']"
  "deployedPairs coffee_stray_answer (appName (flags ''coffee'' [] []))
     [''api'', ''web''] [''test'', ''prod''] = [(''api'', ''test''), (''web'', ''prod'')]"
  by (simp_all add: appNameCandidates_def retrieveAllAppNames_def envNameCandidates_def
        retrieveAllEnvNames_def flags_def coffee_stray_answer_def coffee_def record_call_def
        allProbesComplete_def deployedPairs_def deployed_def probe_def)

text \<open>The prompt answers \<open>tea/dev\<close> when offered \<open>api/test\<close> and \<open>web/prod\<close>.\<close>

theorem askAppEnvName_answer_not_offered_witness:
  "SelectOne coffee_stray_answer (svcLogNamePrompt coffee_stray_answer)
      (svcLogNameHelpPrompt coffee_stray_answer) [''api/test'', ''web/prod''] = Inr ''tea/dev'' \<and>
   ''tea/dev'' \<notin> set [''api/test'', ''web/prod''] \<and>
   (\<exists>opts'. askAppEnvName coffee_stray_answer (flags ''coffee'' [] []) = (None, opts') \<and>
      svcName opts' = [] \<and> envName opts' = [])"
proof -
  let ?opts = "flags ''coffee'' [] []"
  note h = coffee_stray_answer_listing
  have n: "1 < length (deployedPairs coffee_stray_answer (appName ?opts)
                         [''api'', ''web''] [''test'', ''prod''])"
    by (simp add: h(4))
  have k: "map (displayKey coffee_stray_answer) [(''api'', ''test''), (''web'', ''prod'')]
             = [''api/test'', ''web/prod'']"
    by (simp add: displayKey_def pairOf_def coffee_stray_answer_def coffee_def)
  have a: "SelectOne coffee_stray_answer (svcLogNamePrompt coffee_stray_answer)
             (svcLogNameHelpPrompt coffee_stray_answer)
             (map (displayKey coffee_stray_answer)
                (deployedPairs coffee_stray_answer (appName ?opts)
                   [''api'', ''web''] [''test'', ''prod''])) = Inr ''tea/dev''"
    by (simp add: coffee_stray_answer_def)
  have m: "''tea/dev'' \<notin> set (map (displayKey coffee_stray_answer)
             (deployedPairs coffee_stray_answer (appName ?opts)
                [''api'', ''web''] [''test'', ''prod'']))"
    unfolding h(4) k by simp
  show ?thesis
    using askAppEnvName_answer_not_offered[OF h(1) h(2) h(3) n a m]
    by (simp add: coffee_stray_answer_def)
qed

text \<open>
  Claim C2 as stated fails when the failure of the probe is the failure to create the
  describer: with the production \<open>initAppDescriber\<close> and a describer that cannot be
  created, the probe of \<open>api\<close> in \<open>test\<close> fails, and the error returned is the error of
  \<open>initAppDescriber\<close> as it is, which names the project; it is not the error
  \<open>check if app api is deployed in env test\<close>.
\<close>

theorem askAppEnvName_describer_error_counterexample:
  "probe coffee_no_session ''coffee'' (''api'', ''test'') =
     DescriberError (ErrorfW ''creating stack describer for project coffee: ''
                       (External ''no session'')) \<and>
   fst (askAppEnvName coffee_no_session (flags ''coffee'' ''api'' ''test'')) =
     Some (ErrorfW ''creating stack describer for project coffee: '' (External ''no session'')) \<and>
   \<not> isProbeFailed ''api'' ''test''
       (the (fst (askAppEnvName coffee_no_session (flags ''coffee'' ''api'' ''test''))))"
  by (simp add: askAppEnvName_def appNameCandidates_def envNameCandidates_def flags_def
        coffee_no_session_def coffee_def newAppStatusOpts_initAppDescriber_def probe_def
        record_call_def Let_def)

text \<open>
  Claim C2, amended. Let the probes before the pair \<open>(app, env)\<close> of the cross product
  complete. If \<open>GetServiceArn\<close> fails for \<open>(app, env)\<close> with an error that is not the
  stack-not-exists condition, \<open>askAppEnvName\<close> fails with the error
  \<open>check if app app is deployed in env env\<close> that wraps this error. If \<open>initAppDescriber\<close>
  fails for \<open>(app, env)\<close>, \<open>askAppEnvName\<close> fails with that error unchanged. In both
  cases the calls made end with the calls of this probe: no later pair is probed.
\<close>

theorem askAppEnvName_first_failed_probe:
  assumes "appNameCandidates c opts = (Inr appNames, opts1)"
    and "envNameCandidates c opts1 = (Inr envNames, opts2)"
    and "List.product appNames envNames = pre @ (app, env) # post"
    and "list_all (\<lambda>q. completes (probe c (appName opts) q)) pre"
  shows "(probe c (appName opts) (app, env) = ProbeError cause \<longrightarrow>
           (\<exists>opts'. askAppEnvName c opts =
               (Some (ErrorfW (''check if app '' @ app @ '' is deployed in env '' @ env @ '': '')
                        cause), opts') \<and>
              calls opts' = calls opts @ catalog_calls opts @
                concat (map (probe_calls c (appName opts)) (pre @ [(app, env)])) \<and>
              probes_started (calls opts') = probes_started (calls opts) @
                map (\<lambda>p. InitAppDescriberCall (appName opts) (snd p) (fst p)) (pre @ [(app, env)]))) \<and>
         (probe c (appName opts) (app, env) = DescriberError cause \<longrightarrow>
           (\<exists>opts'. askAppEnvName c opts = (Some cause, opts') \<and>
              calls opts' = calls opts @ catalog_calls opts @
                concat (map (probe_calls c (appName opts)) (pre @ [(app, env)])) \<and>
              probes_started (calls opts') = probes_started (calls opts) @
                map (\<lambda>p. InitAppDescriberCall (appName opts) (snd p) (fst p)) (pre @ [(app, env)])))"
proof -
  from assms(4) have pre: "\<forall>q\<in>set pre. completes (probe c (appName opts) q)"
    by (simp add: list_all_iff)
  note f = probing_fails[OF assms(1,2,3) pre, of cause]
  show ?thesis
  proof (intro conjI impI)
    assume "probe c (appName opts) (app, env) = ProbeError cause"
    with f obtain d m ks where
      loop: "probeAppNames c appNames envNames (opts2, Map.empty, []) =
             (Some (ErrorfW (''check if app '' @ app @ '' is deployed in env '' @ env @ '': '')
                    cause),
              opts\<lparr>appDescriber := d,
                   calls := calls opts @ catalog_calls opts @
                     concat (map (probe_calls c (appName opts)) (pre @ [(app, env)]))\<rparr>, m, ks)"
      by auto
    show "\<exists>opts'. askAppEnvName c opts =
               (Some (ErrorfW (''check if app '' @ app @ '' is deployed in env '' @ env @ '': '')
                        cause), opts') \<and>
              calls opts' = calls opts @ catalog_calls opts @
                concat (map (probe_calls c (appName opts)) (pre @ [(app, env)])) \<and>
              probes_started (calls opts') = probes_started (calls opts) @
                map (\<lambda>p. InitAppDescriberCall (appName opts) (snd p) (fst p)) (pre @ [(app, env)])"
      by (simp add: askAppEnvName_def assms(1,2) loop del: map_append)
  next
    assume "probe c (appName opts) (app, env) = DescriberError cause"
    with f obtain d m ks where
      loop: "probeAppNames c appNames envNames (opts2, Map.empty, []) =
             (Some cause,
              opts\<lparr>appDescriber := d,
                   calls := calls opts @ catalog_calls opts @
                     concat (map (probe_calls c (appName opts)) (pre @ [(app, env)]))\<rparr>, m, ks)"
      by auto
    show "\<exists>opts'. askAppEnvName c opts = (Some cause, opts') \<and>
              calls opts' = calls opts @ catalog_calls opts @
                concat (map (probe_calls c (appName opts)) (pre @ [(app, env)])) \<and>
              probes_started (calls opts') = probes_started (calls opts) @
                map (\<lambda>p. InitAppDescriberCall (appName opts) (snd p) (fst p)) (pre @ [(app, env)])"
      by (simp add: askAppEnvName_def assms(1,2) loop del: map_append)
  qed
qed


text \<open>
  With \<open>web\<close> in \<open>test\<close> throttled, the pair \<open>web/prod\<close> is never probed; with no
  describer to create, the first probe ends resolution.
\<close>

theorem askAppEnvName_first_failed_probe_witness:
  "(\<exists>opts'. askAppEnvName coffee_throttled (flags ''coffee'' [] []) =
       (Some (ErrorfW ''check if app web is deployed in env test: '' (External ''throttled'')),
        opts') \<and>
      calls opts' =
        [ListServicesCall ''coffee'', ListEnvironmentsCall ''coffee'',
         InitAppDescriberCall ''coffee'' ''test'' ''api'', GetServiceArnCall,
         InitAppDescriberCall ''coffee'' ''prod'' ''api'', GetServiceArnCall,
         InitAppDescriberCall ''coffee'' ''test'' ''web'', GetServiceArnCall] \<and>
      probes_started (calls opts') =
        [InitAppDescriberCall ''coffee'' ''test'' ''api'',
         InitAppDescriberCall ''coffee'' ''prod'' ''api'',
         InitAppDescriberCall ''coffee'' ''test'' ''web'']) \<and>
   (\<exists>opts'. askAppEnvName coffee_no_session (flags ''coffee'' ''api'' ''test'') =
       (Some (ErrorfW ''creating stack describer for project coffee: ''
                (External ''no session'')), opts') \<and>
      calls opts' = [InitAppDescriberCall ''coffee'' ''test'' ''api''] \<and>
      probes_started (calls opts') = [InitAppDescriberCall ''coffee'' ''test'' ''api''])"
proof -
  let ?opts = "flags ''coffee'' [] []"
  let ?o1 = "record_call (ListServicesCall ''coffee'') ?opts"
  let ?o2 = "record_call (ListEnvironmentsCall ''coffee'') ?o1"
  have a1: "appNameCandidates coffee_throttled ?opts = (Inr [''api'', ''web''], ?o1)"
    by (simp add: appNameCandidates_def retrieveAllAppNames_def flags_def coffee_throttled_def
          coffee_def record_call_def)
  have a2: "envNameCandidates coffee_throttled ?o1 = (Inr [''test'', ''prod''], ?o2)"
    by (simp add: envNameCandidates_def retrieveAllEnvNames_def flags_def coffee_throttled_def
          coffee_def record_call_def)
  have a3: "List.product [''api'', ''web''] [''test'', ''prod''] =
              [(''api'', ''test''), (''api'', ''prod'')] @ (''web'', ''test'') # [(''web'', ''prod'')]"
    by simp
  have an: "appName ?opts = ''coffee''" by (simp add: flags_def)
  have a4: "list_all (\<lambda>q. completes (probe coffee_throttled (appName ?opts) q))
              [(''api'', ''test''), (''api'', ''prod'')]"
    by (simp add: an probe_def coffee_throttled_def coffee_def)
  have a5: "probe coffee_throttled ''coffee'' (''web'', ''test'')
              = ProbeError (External ''throttled'')"
    by (simp add: probe_def coffee_throttled_def coffee_def)
  have pc: "probe_calls coffee_throttled ''coffee'' =
              (\<lambda>p. [InitAppDescriberCall ''coffee'' (snd p) (fst p), GetServiceArnCall])"
    by (rule ext) (simp add: probe_calls_def coffee_throttled_def coffee_def)
  have cc: "catalog_calls ?opts = [ListServicesCall ''coffee'', ListEnvironmentsCall ''coffee'']"
    "calls ?opts = []"
    by (simp_all add: catalog_calls_def flags_def)
  let ?f = "flags ''coffee'' ''api'' ''test''"
  have b1: "appNameCandidates coffee_no_session ?f = (Inr [''api''], ?f)"
    by (simp add: appNameCandidates_def flags_def)
  have b2: "envNameCandidates coffee_no_session ?f = (Inr [''test''], ?f)"
    by (simp add: envNameCandidates_def flags_def)
  have b3: "List.product [''api''] [''test''] = [] @ (''api'', ''test'') # []"
    by simp
  have bn: "appName ?f = ''coffee''" by (simp add: flags_def)
  have b4: "list_all (\<lambda>q. completes (probe coffee_no_session (appName ?f) q)) []"
    by simp
  have b5: "probe coffee_no_session ''coffee'' (''api'', ''test'') =
              DescriberError (ErrorfW ''creating stack describer for project coffee: ''
                                (External ''no session''))"
    by (simp add: probe_def coffee_no_session_def coffee_def
          newAppStatusOpts_initAppDescriber_def)
  have pd: "probe_calls coffee_no_session ''coffee'' (''api'', ''test'') =
              [InitAppDescriberCall ''coffee'' ''test'' ''api'']"
    by (simp add: probe_calls_def coffee_no_session_def coffee_def
          newAppStatusOpts_initAppDescriber_def)
  have cd: "catalog_calls ?f = []" "calls ?f = []"
    by (simp_all add: catalog_calls_def flags_def)
  show ?thesis
    using askAppEnvName_first_failed_probe[OF a1 a2 a3 a4, of "External ''throttled''"]
      askAppEnvName_first_failed_probe[OF b1 b2 b3 b4,
        of "ErrorfW ''creating stack describer for project coffee: '' (External ''no session'')"]
    by (simp add: a5 b5 an bn pc pd cc cd)
qed

text \<open>
  Claim C5. When the probe of a pair reports the stack-not-exists condition, the loop
  goes on with the remaining environments with the map and the key list as they were,
  and records nothing but the two calls of the probe. A cross product whose probes all
  report deployed or not deployed never makes the probing return an error, and the keys
  added are those of the deployed pairs.
\<close>

theorem probeEnvNames_not_deployed_is_dropped:
  "(initAppDescriber c (appName opts) env app = Inr d \<and> GetServiceArn c d = Inl err \<and>
      IsStackNotExistsErr c err \<longrightarrow>
    probeEnvNames c app (env # envNames) (opts, appEnvs, appEnvNames) =
      probeEnvNames c app envNames
        (opts\<lparr>appDescriber := Some d,
              calls := calls opts @
                [InitAppDescriberCall (appName opts) env app, GetServiceArnCall]\<rparr>,
         appEnvs, appEnvNames)) \<and>
   (allProbesComplete c (appName opts) appNames envNames' \<longrightarrow>
    fst (probeAppNames c appNames envNames' (opts, appEnvs, appEnvNames)) = None \<and>
    snd (snd (snd (probeAppNames c appNames envNames' (opts, appEnvs, appEnvNames)))) =
      appEnvNames @ map (displayKey c) (deployedPairs c (appName opts) appNames envNames'))"
proof (intro conjI impI)
  assume "initAppDescriber c (appName opts) env app = Inr d \<and> GetServiceArn c d = Inl err \<and>
      IsStackNotExistsErr c err"
  then show "probeEnvNames c app (env # envNames) (opts, appEnvs, appEnvNames) =
      probeEnvNames c app envNames
        (opts\<lparr>appDescriber := Some d,
              calls := calls opts @
                [InitAppDescriberCall (appName opts) env app, GetServiceArnCall]\<rparr>,
         appEnvs, appEnvNames)"
    by (simp add: record_call_def Let_def)
next
  assume "allProbesComplete c (appName opts) appNames envNames'"
  then have "\<forall>p\<in>set (List.product appNames envNames'). completes (probe c (appName opts) p)"
    by (simp add: allProbesComplete_def list_all_iff)
  from probePairs_completes[OF this, of appEnvs appEnvNames]
  show "fst (probeAppNames c appNames envNames' (opts, appEnvs, appEnvNames)) = None"
    and "snd (snd (snd (probeAppNames c appNames envNames' (opts, appEnvs, appEnvNames)))) =
      appEnvNames @ map (displayKey c) (deployedPairs c (appName opts) appNames envNames')"
    by (auto simp: probeAppNames_probePairs deployedPairs_filter)
qed

text \<open>
  In project \<open>coffee\<close> the stack of \<open>api\<close> in \<open>prod\<close> does not exist: the loop goes on
  with \<open>test\<close>, and the whole cross product is probed without an error.
\<close>

theorem probeEnvNames_not_deployed_is_dropped_witness:
  "probeEnvNames coffee ''api'' [''prod'', ''test''] (flags ''coffee'' [] [], Map.empty, []) =
     probeEnvNames coffee ''api'' [''test'']
       ((flags ''coffee'' [] [])
          \<lparr>appDescriber := Some (''coffee'', ''prod'', ''api''),
            calls := [InitAppDescriberCall ''coffee'' ''prod'' ''api'', GetServiceArnCall]\<rparr>,
        Map.empty, []) \<and>
   fst (probeAppNames coffee [''api'', ''web''] [''test'', ''prod'']
          (flags ''coffee'' [] [], Map.empty, [])) = None \<and>
   snd (snd (snd (probeAppNames coffee [''api'', ''web''] [''test'', ''prod'']
          (flags ''coffee'' [] [], Map.empty, [])))) = [''api/test'', ''web/prod'']"
proof -
  let ?opts = "flags ''coffee'' [] []"
  have an: "appName ?opts = ''coffee''" "calls ?opts = []" by (simp_all add: flags_def)
  have i: "initAppDescriber coffee ''coffee'' ''prod'' ''api'' = Inr (''coffee'', ''prod'', ''api'')"
    and g: "GetServiceArn coffee (''coffee'', ''prod'', ''api'') = Inl (External ''stack not found'')"
    and n: "IsStackNotExistsErr coffee (External ''stack not found'')"
    by (simp_all add: coffee_def)
  have k: "displayKey coffee (''api'', ''test'') = ''api/test''"
    "displayKey coffee (''web'', ''prod'') = ''web/prod''"
    by (simp_all add: displayKey_def pairOf_def coffee_def)
  have l: "allProbesComplete coffee ''coffee'' [''api'', ''web''] [''test'', ''prod'']"
    "deployedPairs coffee ''coffee'' [''api'', ''web''] [''test'', ''prod'']
       = [(''api'', ''test''), (''web'', ''prod'')]"
    using coffee_listing(3,4) by (simp_all add: an)
  show ?thesis
    using probeEnvNames_not_deployed_is_dropped
            [of coffee ?opts "''prod''" "''api''" "(''coffee'', ''prod'', ''api'')"
                "External ''stack not found''" "[''test'']" Map.empty "[]"
                "[''api'', ''web'']" "[''test'', ''prod'']"]
    by (simp add: an i g n k l del: probeEnvNames.simps probeAppNames.simps)
qed

section \<open>Claims about the whole of \<open>Ask\<close> and about project resolution\<close>

text \<open>
  Claim C6. When project, service and environment are all given and non-empty, \<open>Ask\<close>
  makes no catalog listing call (\<open>ListApplications\<close>, \<open>ListServices\<close>,
  \<open>ListEnvironments\<close>) and exactly one probe: one call of \<open>initAppDescriber\<close>, for the
  given triple, followed by one call of \<open>GetServiceArn\<close> when the describer was created.
\<close>

theorem Ask_all_flags_given:
  assumes "appName opts \<noteq> []" and "svcName opts \<noteq> []" and "envName opts \<noteq> []"
  shows "listing_calls (calls (snd (Ask c opts))) = listing_calls (calls opts) \<and>
         probes_started (calls (snd (Ask c opts))) =
           probes_started (calls opts) @
           [InitAppDescriberCall (appName opts) (envName opts) (svcName opts)] \<and>
         arn_calls (calls (snd (Ask c opts))) =
           arn_calls (calls opts) @
           (case initAppDescriber c (appName opts) (envName opts) (svcName opts) of
              Inl err \<Rightarrow> []
            | Inr d \<Rightarrow> [GetServiceArnCall])"
proof -
  have p: "askProject c opts = (None, opts)"
    using assms(1) by (simp add: askProject_def)
  have a: "appNameCandidates c opts = (Inr [svcName opts], opts)"
    using assms(2) by (simp add: appNameCandidates_def)
  have e: "envNameCandidates c opts = (Inr [envName opts], opts)"
    using assms(3) by (simp add: envNameCandidates_def)
  show ?thesis
    using assms
    by (simp add: Ask_def p askAppEnvName_def a e record_call_def Let_def catalog_calls_def
          split: sum.splits)
qed


text \<open>Project \<open>coffee\<close>, service \<open>api\<close> and environment \<open>test\<close> given.\<close>

theorem Ask_all_flags_given_witness:
  "listing_calls (calls (snd (Ask coffee (flags ''coffee'' ''api'' ''test'')))) = [] \<and>
   probes_started (calls (snd (Ask coffee (flags ''coffee'' ''api'' ''test'')))) =
     [InitAppDescriberCall ''coffee'' ''test'' ''api''] \<and>
   arn_calls (calls (snd (Ask coffee (flags ''coffee'' ''api'' ''test'')))) = [GetServiceArnCall]"
proof -
  let ?opts = "flags ''coffee'' ''api'' ''test''"
  have f: "appName ?opts = ''coffee''" "svcName ?opts = ''api''" "envName ?opts = ''test''"
    "calls ?opts = []"
    by (simp_all add: flags_def)
  have h1: "appName ?opts \<noteq> []" and h2: "svcName ?opts \<noteq> []" and h3: "envName ?opts \<noteq> []"
    by (simp_all add: f)
  have i: "initAppDescriber coffee ''coffee'' ''test'' ''api'' = Inr (''coffee'', ''test'', ''api'')"
    by (simp add: coffee_def)
  show ?thesis
    using Ask_all_flags_given[OF h1 h2 h3, of coffee]
    by (simp add: f i)
qed

text \<open>
  Claim C7. When no project is given, the catalog lists at least one project and the
  prompt fails, \<open>askProject\<close> (and so \<open>Ask\<close>) fails with the error \<open>select project\<close>
  that wraps the error of the prompt, whatever that error is, and selects no project.
  \<open>Unwrap\<close> gives the error of the prompt back, so a cancellation and any other failure
  of the prompt reach the caller as different errors, each of the kind the prompt gave.
\<close>

theorem askProject_prompt_error_is_wrapped:
  assumes "appName opts = []"
    and "ListApplications c = Inr projs"
    and "projs \<noteq> []"
    and "SelectOne c appStatusProjectNamePrompt appStatusProjectNameHelpPrompt (map Name projs)
           = Inl cause"
  shows "fst (askProject c opts) = Some (ErrorfW ''select project: '' cause) \<and>
         Unwrap (ErrorfW ''select project: '' cause) = Some cause \<and>
         fst (Ask c opts) = Some (ErrorfW ''select project: '' cause) \<and>
         appName (snd (askProject c opts)) = []"
  using assms
  by (simp add: Ask_def askProject_def retrieveProjects_def record_call_def Let_def)

text \<open>The prompt is interrupted while the project is chosen.\<close>

theorem askProject_prompt_error_is_wrapped_witness:
  "fst (askProject coffee_interrupted (flags [] [] [])) =
     Some (ErrorfW ''select project: '' (External ''interrupt'')) \<and>
   Unwrap (ErrorfW ''select project: '' (External ''interrupt'')) = Some (External ''interrupt'') \<and>
   fst (Ask coffee_interrupted (flags [] [] [])) =
     Some (ErrorfW ''select project: '' (External ''interrupt'')) \<and>
   appName (snd (askProject coffee_interrupted (flags [] [] []))) = []"
proof -
  have h1: "appName (flags [] [] []) = []" by (simp add: flags_def)
  have h2: "ListApplications coffee_interrupted = Inr [\<lparr>Name = ''coffee''\<rparr>]"
    by (simp add: coffee_interrupted_def coffee_def)
  have h3: "[\<lparr>Name = ''coffee''\<rparr>] \<noteq> []" by simp
  have h4: "SelectOne coffee_interrupted appStatusProjectNamePrompt appStatusProjectNameHelpPrompt
              (map Name [\<lparr>Name = ''coffee''\<rparr>]) = Inl (External ''interrupt'')"
    by (simp add: coffee_interrupted_def)
  show ?thesis
    using askProject_prompt_error_is_wrapped[OF h1 h2 h3 h4] .
qed

section \<open>The candidate set\<close>

text \<open>
  What the inner and the outer loop keep true of the map and the key list: every key of the list is in the
  map, and every entry of the map is stored under the display key of its pair.
\<close>

lemma probeEnvNames_invariant:
  assumes "probeEnvNames c app envNames (opts, m, ks) = (r, opts', m', ks')"
    and "set ks \<subseteq> dom m"
    and "\<forall>k v. m k = Some v \<longrightarrow> svcEnv_String c v = k"
  shows "set ks' \<subseteq> dom m' \<and> (\<forall>k v. m' k = Some v \<longrightarrow> svcEnv_String c v = k)"
  using assms
proof (induction envNames arbitrary: opts m ks)
  case Nil
  then show ?case by simp
next
  case (Cons env envNames)
  show ?case
  proof (cases "initAppDescriber c (appName opts) env app")
    case (Inl err)
    with Cons.prems show ?thesis by (simp add: Let_def)
  next
    case (Inr d)
    note init = Inr
    show ?thesis
    proof (cases "GetServiceArn c d")
      case (Inl err)
      show ?thesis
      proof (cases "IsStackNotExistsErr c err")
        case True
        with Cons.prems init Inl have
          "probeEnvNames c app envNames
             (record_call GetServiceArnCall
                ((record_call (InitAppDescriberCall (appName opts) env app) opts)
                   \<lparr>appDescriber := Some d\<rparr>), m, ks) = (r, opts', m', ks')"
          by (simp add: Let_def)
        from Cons.IH[OF this Cons.prems(2,3)] show ?thesis .
      next
        case False
        with Cons.prems init Inl show ?thesis by (simp add: Let_def)
      qed
    next
      case (Inr arn)
      let ?v = "\<lparr>svcEnv.svcName = app, svcEnv.envName = env\<rparr>"
      let ?k = "svcEnv_String c ?v"
      from Cons.prems init Inr have run:
        "probeEnvNames c app envNames
           (record_call GetServiceArnCall
              ((record_call (InitAppDescriberCall (appName opts) env app) opts)
                 \<lparr>appDescriber := Some d\<rparr>), m(?k \<mapsto> ?v), ks @ [?k]) = (r, opts', m', ks')"
        by (simp add: Let_def)
      have s: "set (ks @ [?k]) \<subseteq> dom (m(?k \<mapsto> ?v))"
        using Cons.prems(2) by auto
      have v: "\<forall>k v. (m(?k \<mapsto> ?v)) k = Some v \<longrightarrow> svcEnv_String c v = k"
        using Cons.prems(3) by auto
      from Cons.IH[OF run s v] show ?thesis .
    qed
  qed
qed

lemma probeAppNames_invariant:
  assumes "probeAppNames c appNames envNames (opts, m, ks) = (r, opts', m', ks')"
    and "set ks \<subseteq> dom m"
    and "\<forall>k v. m k = Some v \<longrightarrow> svcEnv_String c v = k"
  shows "set ks' \<subseteq> dom m' \<and> (\<forall>k v. m' k = Some v \<longrightarrow> svcEnv_String c v = k)"
  using assms
proof (induction appNames arbitrary: opts m ks)
  case Nil
  then show ?case by simp
next
  case (Cons app appNames)
  obtain r1 o1 m1 ks1 where inner: "probeEnvNames c app envNames (opts, m, ks) = (r1, o1, m1, ks1)"
    by (metis prod_cases4)
  from probeEnvNames_invariant[OF inner Cons.prems(2,3)]
  have i1: "set ks1 \<subseteq> dom m1" and i2: "\<forall>k v. m1 k = Some v \<longrightarrow> svcEnv_String c v = k"
    by blast+
  show ?case
  proof (cases r1)
    case None
    with Cons.prems(1) inner have "probeAppNames c appNames envNames (o1, m1, ks1) = (r, opts', m', ks')"
      by simp
    from Cons.IH[OF this i1 i2] show ?thesis .
  next
    case (Some err)
    with Cons.prems(1) inner have "m' = m1" "ks' = ks1" by simp_all
    with i1 i2 show ?thesis by simp
  qed
qed

text \<open>
  Claim C8. Whatever the listings and the outcomes of the probes, and whether or not the
  probing ends with an error, every display key of \<open>appEnvNames\<close> has exactly one entry in
  \<open>appEnvs\<close>, and no pair is stored under two keys of \<open>appEnvs\<close>.
\<close>

theorem probeAppNames_candidate_set_invariant:
  assumes "probeAppNames c appNames envNames (opts, Map.empty, []) = (r, opts', appEnvs, appEnvNames)"
  shows "(\<forall>k\<in>set appEnvNames. \<exists>!v. appEnvs k = Some v) \<and>
         (\<forall>k k' v. appEnvs k = Some v \<and> appEnvs k' = Some v \<longrightarrow> k = k')"
proof -
  from probeAppNames_invariant[OF assms]
  have i1: "set appEnvNames \<subseteq> dom appEnvs"
    and i2: "\<forall>k v. appEnvs k = Some v \<longrightarrow> svcEnv_String c v = k"
    by simp_all
  from i1 have "\<forall>k\<in>set appEnvNames. \<exists>!v. appEnvs k = Some v" by auto
  moreover from i2 have "\<forall>k k' v. appEnvs k = Some v \<and> appEnvs k' = Some v \<longrightarrow> k = k'"
    by metis
  ultimately show ?thesis by blast
qed


text \<open>The candidate set of project \<open>coffee\<close>: the keys \<open>api/test\<close> and \<open>web/prod\<close>.\<close>

theorem probeAppNames_candidate_set_invariant_witness:
  "snd (snd (snd (probeAppNames coffee [''api'', ''web''] [''test'', ''prod'']
                    (flags ''coffee'' [] [], Map.empty, [])))) = [''api/test'', ''web/prod''] \<and>
   (\<exists>!v. fst (snd (snd (probeAppNames coffee [''api'', ''web''] [''test'', ''prod'']
                          (flags ''coffee'' [] [], Map.empty, [])))) ''api/test'' = Some v) \<and>
   (\<exists>!v. fst (snd (snd (probeAppNames coffee [''api'', ''web''] [''test'', ''prod'']
                          (flags ''coffee'' [] [], Map.empty, [])))) ''web/prod'' = Some v) \<and>
   fst (snd (snd (probeAppNames coffee [''api'', ''web''] [''test'', ''prod'']
                    (flags ''coffee'' [] [], Map.empty, [])))) ''api/test'' \<noteq>
   fst (snd (snd (probeAppNames coffee [''api'', ''web''] [''test'', ''prod'']
                    (flags ''coffee'' [] [], Map.empty, [])))) ''web/prod''"
proof -
  let ?R = "probeAppNames coffee [''api'', ''web''] [''test'', ''prod'']
              (flags ''coffee'' [] [], Map.empty, [])"
  let ?m = "fst (snd (snd ?R))"
  have run: "?R = (fst ?R, fst (snd ?R), ?m, snd (snd (snd ?R)))"
    by simp
  have keys: "snd (snd (snd ?R)) = [''api/test'', ''web/prod'']"
    by (simp add: coffee_def flags_def record_call_def Let_def)
  from probeAppNames_candidate_set_invariant[OF run]
  have one: "\<forall>k\<in>set (snd (snd (snd ?R))). \<exists>!v. ?m k = Some v"
    and nodup: "\<forall>k k' v. ?m k = Some v \<and> ?m k' = Some v \<longrightarrow> k = k'"
    by blast+
  from one have e1: "\<exists>!v. ?m ''api/test'' = Some v" and e2: "\<exists>!v. ?m ''web/prod'' = Some v"
    unfolding keys by simp_all
  from e1 obtain v where v: "?m ''api/test'' = Some v" by blast
  have "''api/test'' \<noteq> ''web/prod''" by simp
  with nodup v have "?m ''web/prod'' \<noteq> Some v" by blast
  with v have ne: "?m ''api/test'' \<noteq> ?m ''web/prod''" by simp
  from keys e1 e2 ne show ?thesis by blast
qed

text \<open>
  The prompt for the deployed pair fails in the same way: the error of the prompt is
  wrapped, with the project named.
\<close>

lemma askAppEnvName_prompt_error_is_wrapped:
  assumes "appNameCandidates c opts = (Inr appNames, opts1)"
    and "envNameCandidates c opts1 = (Inr envNames, opts2)"
    and "allProbesComplete c (appName opts) appNames envNames"
    and "1 < length (deployedPairs c (appName opts) appNames envNames)"
    and "SelectOne c (svcLogNamePrompt c) (svcLogNameHelpPrompt c)
           (map (displayKey c) (deployedPairs c (appName opts) appNames envNames)) = Inl cause"
  shows "fst (askAppEnvName c opts) =
           Some (ErrorfW (''select deployed applications for project '' @ appName opts @ '': '')
                   cause)"
proof -
  from probing_completes[OF assms(1,2,3)] obtain d where
    loop: "probeAppNames c appNames envNames (opts2, Map.empty, []) =
           (None,
            opts\<lparr>appDescriber := d,
                 calls := calls opts @ catalog_calls opts @
                   concat (map (probe_calls c (appName opts)) (List.product appNames envNames))\<rparr>,
            register c (deployedPairs c (appName opts) appNames envNames) Map.empty,
            map (displayKey c) (deployedPairs c (appName opts) appNames envNames))"
    by blast
  from assms(4) have ne: "deployedPairs c (appName opts) appNames envNames \<noteq> []"
    and n1: "length (deployedPairs c (appName opts) appNames envNames) \<noteq> Suc 0"
    by auto
  show ?thesis
    by (simp add: askAppEnvName_def assms(1,2,5) loop ne n1 record_call_def Let_def)
qed

section \<open>The colour switch\<close>

text \<open>
  Claim C10. When \<open>COLOR\<close> is set to a value that is neither \<open>true\<close> nor \<open>false\<close> after
  lower-casing, \<open>DisableColorBasedOnEnvVar\<close> leaves both \<open>core.DisableColor\<close> and
  \<open>color.NoColor\<close> as they are. When the variable is unset, \<open>core.DisableColor\<close> becomes the
  current \<open>color.NoColor\<close> and \<open>color.NoColor\<close> is unchanged. The words \<open>false\<close> and
  \<open>true\<close> are matched after lower-casing, so the match ignores case: two values with the
  same lower-casing have the same effect.
\<close>

theorem DisableColorBasedOnEnvVar_cases:
  "(lookupEnv colorEnvVar = Some v \<and> ToLower v \<noteq> ''true'' \<and> ToLower v \<noteq> ''false''
      \<longrightarrow> DisableColorBasedOnEnvVar lookupEnv g = g) \<and>
   (lookupEnv colorEnvVar = None
      \<longrightarrow> DisableColor (DisableColorBasedOnEnvVar lookupEnv g) = NoColor g \<and>
          NoColor (DisableColorBasedOnEnvVar lookupEnv g) = NoColor g) \<and>
   (lookupEnv colorEnvVar = Some v \<and> ToLower v = ''false''
      \<longrightarrow> DisableColorBasedOnEnvVar lookupEnv g = \<lparr>DisableColor = True, NoColor = True\<rparr>) \<and>
   (lookupEnv colorEnvVar = Some v \<and> ToLower v = ''true''
      \<longrightarrow> DisableColorBasedOnEnvVar lookupEnv g = \<lparr>DisableColor = False, NoColor = False\<rparr>) \<and>
   (lookupEnv colorEnvVar = Some v \<and> lookupEnv' colorEnvVar = Some w \<and> ToLower v = ToLower w
      \<longrightarrow> DisableColorBasedOnEnvVar lookupEnv g = DisableColorBasedOnEnvVar lookupEnv' g)"
  by (cases g) (simp add: DisableColorBasedOnEnvVar_def)

text \<open>
  The theorem at concrete values: \<open>Yes\<close> changes nothing, an unset variable copies
  \<open>NoColor\<close>, and \<open>FaLsE\<close>, \<open>TRUE\<close>, \<open>True\<close> and \<open>tRUE\<close> are matched whatever their
  case.
\<close>

theorem DisableColorBasedOnEnvVar_cases_witness:
  "DisableColorBasedOnEnvVar (\<lambda>name. if name = ''COLOR'' then Some ''Yes'' else None)
     \<lparr>DisableColor = True, NoColor = False\<rparr> = \<lparr>DisableColor = True, NoColor = False\<rparr> \<and>
   DisableColor (DisableColorBasedOnEnvVar (\<lambda>name. None) \<lparr>DisableColor = True, NoColor = False\<rparr>)
     = False \<and>
   NoColor (DisableColorBasedOnEnvVar (\<lambda>name. None) \<lparr>DisableColor = True, NoColor = False\<rparr>)
     = False \<and>
   DisableColorBasedOnEnvVar (\<lambda>name. if name = ''COLOR'' then Some ''FaLsE'' else None)
     \<lparr>DisableColor = False, NoColor = False\<rparr> = \<lparr>DisableColor = True, NoColor = True\<rparr> \<and>
   DisableColorBasedOnEnvVar (\<lambda>name. if name = ''COLOR'' then Some ''TRUE'' else None)
     \<lparr>DisableColor = True, NoColor = True\<rparr> = \<lparr>DisableColor = False, NoColor = False\<rparr> \<and>
   DisableColorBasedOnEnvVar (\<lambda>name. if name = ''COLOR'' then Some ''True'' else None)
     \<lparr>DisableColor = True, NoColor = False\<rparr> =
   DisableColorBasedOnEnvVar (\<lambda>name. if name = ''COLOR'' then Some ''tRUE'' else None)
     \<lparr>DisableColor = True, NoColor = False\<rparr>"
proof -
  let ?env = "\<lambda>v name. if name = ''COLOR'' then Some v else (None :: string option)"
  have l1: "ToLower ''Yes'' = ''yes''" and l2: "ToLower ''FaLsE'' = ''false''"
    and l3: "ToLower ''TRUE'' = ''true''" and l4: "ToLower ''True'' = ''true''"
    and l5: "ToLower ''tRUE'' = ''true''"
    by code_simp+
  have e: "\<And>v. ?env v colorEnvVar = Some v" by (simp add: colorEnvVar_def)
  have n: "(\<lambda>name. None :: string option) colorEnvVar = None" by simp
  show ?thesis
    using DisableColorBasedOnEnvVar_cases
            [of "?env ''Yes''" "''Yes''" "\<lparr>DisableColor = True, NoColor = False\<rparr>"]
          DisableColorBasedOnEnvVar_cases
            [of "\<lambda>name. None" "''''" "\<lparr>DisableColor = True, NoColor = False\<rparr>"]
          DisableColorBasedOnEnvVar_cases
            [of "?env ''FaLsE''" "''FaLsE''" "\<lparr>DisableColor = False, NoColor = False\<rparr>"]
          DisableColorBasedOnEnvVar_cases
            [of "?env ''TRUE''" "''TRUE''" "\<lparr>DisableColor = True, NoColor = True\<rparr>"]
          DisableColorBasedOnEnvVar_cases
            [of "?env ''True''" "''True''" "\<lparr>DisableColor = True, NoColor = False\<rparr>"
                "?env ''tRUE''" "''tRUE''"]
          DisableColorBasedOnEnvVar_cases
            [of "?env ''tRUE''" "''tRUE''" "\<lparr>DisableColor = True, NoColor = False\<rparr>"]
    by (simp add: l1 l2 l3 l4 l5 colorEnvVar_def)
qed

end
